theory Spec2Isabelle
  imports Complex_Main "HOL-Library.Char_ord" "HOL-Library.List_Lexorder" "HOL-Library.Multiset"
begin

section \<open>Parsed JSON values and canonical keys\<close>

text \<open>
  The scripts of the repository read line-delimited JSON and work on the values that
  \<^verbatim>\<open>json.loads\<close> returns: \<^verbatim>\<open>None\<close>, \<^verbatim>\<open>bool\<close>, \<^verbatim>\<open>int\<close>, \<^verbatim>\<open>float\<close>, \<^verbatim>\<open>str\<close>,
  \<^verbatim>\<open>list\<close> and \<^verbatim>\<open>dict\<close> with string keys. A \<^verbatim>\<open>dict\<close> keeps its insertion order, so it is an
  association list; its keys are unique (\<open>wf_json\<close>). A float is modelled by the exact
  rational number it denotes (comparison of Python numbers is exact); the constants
  \<^verbatim>\<open>NaN\<close> and \<^verbatim>\<open>Infinity\<close>, which are not JSON, and the rounding of float arithmetic are
  outside the model. A character of a string stands for one code point (the model covers
  the code points below 256); strings are ordered as in Python, lexicographically by code
  point.
\<close>

datatype prim = PNone | PBool bool | PInt int | PFloat rat | PStr string

datatype json = JPrim prim | JList "json list" | JDict "(string \<times> json) list"

text \<open>What \<^verbatim>\<open>make_hashable\<close> returns: a primitive, or a tuple of such values.\<close>

datatype hashable = HPrim prim | HTuple "hashable list"


subsection \<open>Python equality\<close>

text \<open>
  Python compares numbers by value across \<^verbatim>\<open>bool\<close>, \<^verbatim>\<open>int\<close> and \<^verbatim>\<open>float\<close>
  (\<^verbatim>\<open>True == 1 == 1.0\<close>, with equal hashes); \<^verbatim>\<open>None\<close> and strings are equal only to
  themselves.
\<close>

fun num_val :: "prim \<Rightarrow> rat option" where
  "num_val (PBool b) = Some (if b then 1 else 0)"
| "num_val (PInt i) = Some (of_int i)"
| "num_val (PFloat r) = Some r"
| "num_val PNone = None"
| "num_val (PStr s) = None"

definition prim_eq :: "prim \<Rightarrow> prim \<Rightarrow> bool" where
  "prim_eq p q =
     (case (num_val p, num_val q) of
        (Some x, Some y) \<Rightarrow> x = y
      | (None, None) \<Rightarrow> p = q
      | _ \<Rightarrow> False)"

text \<open>Equality of canonical keys, as a \<^verbatim>\<open>Counter\<close> decides it: tuples are equal when they
  have the same length and equal components.\<close>

fun key_eq :: "hashable \<Rightarrow> hashable \<Rightarrow> bool" where
  "key_eq (HPrim p) (HPrim q) = prim_eq p q"
| "key_eq (HTuple xs) (HTuple ys) = list_all2 key_eq xs ys"
| "key_eq _ _ = False"

text \<open>Structural equality of parsed JSON values (Python's \<^verbatim>\<open>==\<close>): lists are compared in
  order, dicts by their key/value pairs whatever the insertion order.\<close>

fun json_eq :: "json \<Rightarrow> json \<Rightarrow> bool" where
  "json_eq (JPrim p) (JPrim q) = prim_eq p q"
| "json_eq (JList xs) (JList ys) = list_all2 json_eq xs ys"
| "json_eq (JDict a) (JDict b) =
     (length a = length b \<and>
      (\<forall>(k, v) \<in> set a. case map_of b k of None \<Rightarrow> False | Some w \<Rightarrow> json_eq v w))"
| "json_eq _ _ = False"

subsection \<open>\<^verbatim>\<open>make_hashable\<close> (repeated\_actions.py)\<close>

text \<open>
  \<^verbatim>\<open>sorted\<close> on the \<^verbatim>\<open>(key, value)\<close> tuples of a dict compares the keys first; the keys of a
  dict are distinct, so the values are never compared and the result is the stable sort
  by key. The last branch of the source (\<^verbatim>\<open>str(obj)\<close>) is not reached by a parsed JSON
  value.
\<close>

definition py_sorted_items :: "(string \<times> hashable) list \<Rightarrow> (string \<times> hashable) list" where
  "py_sorted_items items = sort_key fst items"

definition pair_tuple :: "string \<times> hashable \<Rightarrow> hashable" where
  "pair_tuple kh = HTuple [HPrim (PStr (fst kh)), snd kh]"

fun make_hashable :: "json \<Rightarrow> hashable" where
  "make_hashable (JDict kvs) =
     HTuple (map pair_tuple (py_sorted_items (map (\<lambda>(k, v). (k, make_hashable v)) kvs)))"
| "make_hashable (JList xs) = HTuple (map make_hashable xs)"
| "make_hashable (JPrim p) = HPrim p"

definition action_to_hashable :: "json \<Rightarrow> hashable" where
  "action_to_hashable action = make_hashable action"

section \<open>Python operations on parsed values\<close>

text \<open>
  The scripts apply \<^verbatim>\<open>.get\<close>, \<^verbatim>\<open>len\<close>, indexing, \<^verbatim>\<open>sum\<close>, comparison and truth tests to
  whatever \<^verbatim>\<open>json.loads\<close> returned, and enforce no schema: on a value of the wrong type
  Python raises, and the handler \<^verbatim>\<open>except Exception\<close> of the line loop catches it. Each
  operation returns the exception as a value.
\<close>

datatype pyerr =
    AttributeError | TypeError | IndexError | KeyError | FileNotFoundError
  | JSONDecodeError string

definition bind_err :: "pyerr + 'a \<Rightarrow> ('a \<Rightarrow> pyerr + 'b) \<Rightarrow> pyerr + 'b" where
  "bind_err m f = (case m of Inl e \<Rightarrow> Inl e | Inr x \<Rightarrow> f x)"

text \<open>\<^verbatim>\<open>obj.get(key, dflt)\<close>: only a dict has the method.\<close>

fun py_get :: "json \<Rightarrow> string \<Rightarrow> json \<Rightarrow> pyerr + json" where
  "py_get (JDict kvs) key dflt = Inr (case map_of kvs key of Some v \<Rightarrow> v | None \<Rightarrow> dflt)"
| "py_get (JList xs) key dflt = Inl AttributeError"
| "py_get (JPrim p) key dflt = Inl AttributeError"

text \<open>\<^verbatim>\<open>len(obj)\<close>.\<close>

fun py_len :: "json \<Rightarrow> pyerr + nat" where
  "py_len (JList xs) = Inr (length xs)"
| "py_len (JDict kvs) = Inr (length kvs)"
| "py_len (JPrim (PStr s)) = Inr (length s)"
| "py_len (JPrim p) = Inl TypeError"

text \<open>The truth value of an object in \<^verbatim>\<open>if obj\<close>, \<^verbatim>\<open>obj and ...\<close>.\<close>

fun py_truthy :: "json \<Rightarrow> bool" where
  "py_truthy (JPrim PNone) = False"
| "py_truthy (JPrim (PBool b)) = b"
| "py_truthy (JPrim (PInt i)) = (i \<noteq> 0)"
| "py_truthy (JPrim (PFloat r)) = (r \<noteq> 0)"
| "py_truthy (JPrim (PStr s)) = (s \<noteq> [])"
| "py_truthy (JList xs) = (xs \<noteq> [])"
| "py_truthy (JDict kvs) = (kvs \<noteq> [])"

text \<open>\<^verbatim>\<open>obj[-1]\<close>: the last element of a list or string; a dict has no key \<^verbatim>\<open>-1\<close>.\<close>

fun py_last :: "json \<Rightarrow> pyerr + json" where
  "py_last (JList xs) = (if xs = [] then Inl IndexError else Inr (last xs))"
| "py_last (JDict kvs) = Inl KeyError"
| "py_last (JPrim (PStr s)) = (if s = [] then Inl IndexError else Inr (JPrim (PStr [last s])))"
| "py_last (JPrim p) = Inl TypeError"

text \<open>\<^verbatim>\<open>obj >= c\<close> for a number \<open>c\<close>: only numbers are comparable with it.\<close>

fun py_ge :: "json \<Rightarrow> rat \<Rightarrow> pyerr + bool" where
  "py_ge (JPrim p) c = (case num_val p of Some r \<Rightarrow> Inr (c \<le> r) | None \<Rightarrow> Inl TypeError)"
| "py_ge (JList xs) c = Inl TypeError"
| "py_ge (JDict kvs) c = Inl TypeError"

text \<open>Iteration (\<^verbatim>\<open>for x in obj\<close>): the elements of a list, the keys of a dict, the
  characters of a string.\<close>

fun py_iter :: "json \<Rightarrow> pyerr + json list" where
  "py_iter (JList xs) = Inr xs"
| "py_iter (JDict kvs) = Inr (map (\<lambda>kv. JPrim (PStr (fst kv))) kvs)"
| "py_iter (JPrim (PStr s)) = Inr (map (\<lambda>c. JPrim (PStr [c])) s)"
| "py_iter (JPrim p) = Inl TypeError"

text \<open>\<^verbatim>\<open>sum(obj)\<close>: adds the elements to 0 from left to right; adding anything but a number
  raises. The sum is exact in the model.\<close>

fun py_sum_from :: "rat \<Rightarrow> json list \<Rightarrow> pyerr + rat" where
  "py_sum_from acc [] = Inr acc"
| "py_sum_from acc (JPrim p # xs) =
     (case num_val p of Some r \<Rightarrow> py_sum_from (acc + r) xs | None \<Rightarrow> Inl TypeError)"
| "py_sum_from acc (JList ys # xs) = Inl TypeError"
| "py_sum_from acc (JDict kvs # xs) = Inl TypeError"

definition py_sum :: "json \<Rightarrow> pyerr + rat" where
  "py_sum obj = bind_err (py_iter obj) (py_sum_from 0)"

text \<open>The value of the expression \<^verbatim>\<open>rewards and rewards[-1] >= 50\<close>: \<^verbatim>\<open>rewards\<close> itself
  when it is falsy, the comparison otherwise.\<close>

definition rewards_win :: "json \<Rightarrow> pyerr + json" where
  "rewards_win rewards =
     (if py_truthy rewards
      then bind_err (py_last rewards) (\<lambda>r. bind_err (py_ge r 50) (\<lambda>b. Inr (JPrim (PBool b))))
      else Inr rewards)"

subsection \<open>Input files and printed reports\<close>

text \<open>
  A line of an input file, as the line loop sees it after \<^verbatim>\<open>line.strip()\<close> and
  \<^verbatim>\<open>json.loads\<close>: empty, rejected by the decoder (with the decoder's message), or parsed.
  A file system maps a path to the file's size and lines; opening a path it does not
  hold raises \<^verbatim>\<open>FileNotFoundError\<close>. A path is the string that \<^verbatim>\<open>str(Path(filepath))\<close>
  gives.
\<close>

datatype line = Blank | Malformed string | Parsed json

record pyfile =
  st_size :: nat
  file_lines :: "line list"

type_synonym filesystem = "string \<Rightarrow> pyfile option"

text \<open>
  The messages the scripts print on errors, with the values their format strings show:
  the line number and the file when the message has them, and the exception. The other
  output of the scripts (tables, summaries) is not modelled.
  \<^verbatim>\<open>Error parsing line {line_num} in {filepath}: {e}\<close> is
  \<open>ErrorParsing (Some line_num) (Some filepath) e\<close>.
\<close>

datatype report =
    ErrorParsing "nat option" "string option" string
  | ErrorProcessing "nat option" "string option" pyerr
  | WarningFileNotFound string

section \<open>Counting repeated actions (repeated\_actions.py)\<close>

text \<open>
  \<^verbatim>\<open>counter[key] += 1\<close> on a \<^verbatim>\<open>Counter\<close> or a \<^verbatim>\<open>defaultdict(int)\<close>: the entry of an
  equal key is incremented, a new key is added at the end with count 1.
\<close>

fun counter_incr :: "('k \<Rightarrow> 'k \<Rightarrow> bool) \<Rightarrow> ('k \<times> nat) list \<Rightarrow> 'k \<Rightarrow> ('k \<times> nat) list" where
  "counter_incr eq [] k = [(k, 1)]"
| "counter_incr eq ((h, c) # rest) k =
     (if eq h k then (h, Suc c) # rest else (h, c) # counter_incr eq rest k)"

definition count_actions :: "json list \<Rightarrow> (hashable \<times> nat) list" where
  "count_actions actions =
     foldl (\<lambda>action_counter action. counter_incr key_eq action_counter (action_to_hashable action))
       [] actions"

record episode_info =
  ei_file :: string
  ei_line :: nat
  total_actions :: nat
  unique_actions :: nat
  num_repeated_actions :: nat
  total_repetitions :: nat
  repeat_percentage :: rat
  is_win :: json

text \<open>The body of the \<^verbatim>\<open>try\<close> block up to the construction of \<^verbatim>\<open>episode_info\<close>: \<open>None\<close>
  is the \<^verbatim>\<open>continue\<close> on an episode without actions.\<close>

definition ra_episode :: "string \<Rightarrow> nat \<Rightarrow> json \<Rightarrow> pyerr + episode_info option" where
  "ra_episode filepath line_num episode =
     bind_err (py_get episode ''trajectory'' (JDict [])) (\<lambda>trajectory.
     bind_err (py_get trajectory ''actions'' (JList [])) (\<lambda>actions.
     bind_err (py_get trajectory ''rewards'' (JList [])) (\<lambda>rewards.
     bind_err (py_len actions) (\<lambda>n.
     if n = 0 then Inr None
     else
       bind_err (py_iter actions) (\<lambda>items.
       let action_counter = count_actions items;
           num_repeated = length (filter (\<lambda>count. count > 1) (map snd action_counter));
           total_reps = sum_list (map (\<lambda>count. count - 1)
                                   (filter (\<lambda>count. count > 1) (map snd action_counter)));
           total = n;
           percentage = (if total > 0 then of_nat total_reps / of_nat total * 100 else 0)
       in bind_err (rewards_win rewards) (\<lambda>w.
          Inr (Some \<lparr> ei_file = filepath, ei_line = line_num, total_actions = total,
                      unique_actions = length action_counter,
                      num_repeated_actions = num_repeated,
                      total_repetitions = total_reps,
                      repeat_percentage = percentage,
                      is_win = w \<rparr>)))))))"

record ra_state =
  all_episodes_repeats :: "nat list"
  win_episodes_repeats :: "nat list"
  loss_episodes_repeats :: "nat list"
  all_episodes_total_reps :: "nat list"
  win_episodes_total_reps :: "nat list"
  loss_episodes_total_reps :: "nat list"
  all_episodes_rep_rates :: "rat list"
  win_episodes_rep_rates :: "rat list"
  loss_episodes_rep_rates :: "rat list"
  episode_details :: "episode_info list"
  ra_output :: "report list"

definition ra_init :: ra_state where
  "ra_init = \<lparr> all_episodes_repeats = [], win_episodes_repeats = [], loss_episodes_repeats = [],
               all_episodes_total_reps = [], win_episodes_total_reps = [],
               loss_episodes_total_reps = [], all_episodes_rep_rates = [],
               win_episodes_rep_rates = [], loss_episodes_rep_rates = [],
               episode_details = [], ra_output = [] \<rparr>"

text \<open>The appends that end the \<^verbatim>\<open>try\<close> block.\<close>

definition ra_store :: "ra_state \<Rightarrow> episode_info \<Rightarrow> ra_state" where
  "ra_store st info =
     (if py_truthy (is_win info)
      then st \<lparr> episode_details := episode_details st @ [info],
                all_episodes_repeats := all_episodes_repeats st @ [num_repeated_actions info],
                all_episodes_total_reps := all_episodes_total_reps st @ [total_repetitions info],
                all_episodes_rep_rates := all_episodes_rep_rates st @ [repeat_percentage info],
                win_episodes_repeats := win_episodes_repeats st @ [num_repeated_actions info],
                win_episodes_total_reps := win_episodes_total_reps st @ [total_repetitions info],
                win_episodes_rep_rates := win_episodes_rep_rates st @ [repeat_percentage info] \<rparr>
      else st \<lparr> episode_details := episode_details st @ [info],
                all_episodes_repeats := all_episodes_repeats st @ [num_repeated_actions info],
                all_episodes_total_reps := all_episodes_total_reps st @ [total_repetitions info],
                all_episodes_rep_rates := all_episodes_rep_rates st @ [repeat_percentage info],
                loss_episodes_repeats := loss_episodes_repeats st @ [num_repeated_actions info],
                loss_episodes_total_reps := loss_episodes_total_reps st @ [total_repetitions info],
                loss_episodes_rep_rates := loss_episodes_rep_rates st @ [repeat_percentage info] \<rparr>)"

text \<open>One turn of the line loop: blank lines are skipped, the two handlers print a
  message and the loop goes on.\<close>

definition ra_line :: "string \<Rightarrow> nat \<Rightarrow> ra_state \<Rightarrow> line \<Rightarrow> ra_state" where
  "ra_line filepath line_num st l =
     (case l of
        Blank \<Rightarrow> st
      | Malformed e \<Rightarrow>
          st \<lparr> ra_output := ra_output st @ [ErrorParsing (Some line_num) (Some filepath) e] \<rparr>
      | Parsed episode \<Rightarrow>
          (case ra_episode filepath line_num episode of
             Inl e \<Rightarrow>
               st \<lparr> ra_output := ra_output st @ [ErrorProcessing (Some line_num) (Some filepath) e] \<rparr>
           | Inr None \<Rightarrow> st
           | Inr (Some info) \<Rightarrow> ra_store st info))"

fun ra_lines :: "string \<Rightarrow> nat \<Rightarrow> ra_state \<Rightarrow> line list \<Rightarrow> ra_state" where
  "ra_lines filepath line_num st [] = st"
| "ra_lines filepath line_num st (l # ls) =
     ra_lines filepath (Suc line_num) (ra_line filepath line_num st l) ls"

text \<open>The loop over the files: \<^verbatim>\<open>open\<close> is not guarded, so a missing file ends the run.\<close>

fun ra_files :: "filesystem \<Rightarrow> ra_state \<Rightarrow> string list \<Rightarrow> pyerr + ra_state" where
  "ra_files fs st [] = Inr st"
| "ra_files fs st (filepath # rest) =
     (case fs filepath of
        None \<Rightarrow> Inl FileNotFoundError
      | Some f \<Rightarrow> ra_files fs (ra_lines filepath 1 st (file_lines f)) rest)"

definition analyze_repeated_actions :: "filesystem \<Rightarrow> string list \<Rightarrow> pyerr + ra_state" where
  "analyze_repeated_actions fs filepaths = ra_files fs ra_init filepaths"

section \<open>Episode summary (summary.py)\<close>

record episode_data =
  num_actions :: nat
  num_states :: nat
  total_reward :: rat
  final_reward :: json
  final_action :: json
  agent_name :: json
  agent_role :: json
  outcome :: "string option"
  loss_type :: "string option"

text \<open>
  The \<^verbatim>\<open>try\<close> block of \<^verbatim>\<open>analyze_episodes\<close> up to the test of the outcome: every statement
  that can raise comes before the first \<^verbatim>\<open>append\<close>. The result is the dict
  \<^verbatim>\<open>episode_data\<close> before its outcome is set, with the value of
  \<^verbatim>\<open>rewards and rewards[-1] >= 50\<close>; \<open>None\<close> is the \<^verbatim>\<open>continue\<close> on an episode without
  actions.
\<close>

definition summary_episode :: "json \<Rightarrow> pyerr + (episode_data \<times> json) option" where
  "summary_episode episode =
     bind_err (py_get episode ''trajectory'' (JDict [])) (\<lambda>trajectory.
     bind_err (py_get trajectory ''actions'' (JList [])) (\<lambda>actions.
     bind_err (py_get trajectory ''rewards'' (JList [])) (\<lambda>rewards.
     bind_err (py_get trajectory ''states'' (JList [])) (\<lambda>states.
     bind_err (py_len actions) (\<lambda>n.
     if n = 0 then Inr None
     else
       bind_err (py_len states) (\<lambda>n_states.
       bind_err (if py_truthy rewards then py_sum rewards else Inr 0) (\<lambda>total.
       bind_err (if py_truthy rewards then py_last rewards else Inr (JPrim PNone)) (\<lambda>final_r.
       bind_err (if py_truthy actions
                 then bind_err (py_last actions) (\<lambda>a. py_get a ''action_type'' (JPrim PNone))
                 else Inr (JPrim PNone)) (\<lambda>final_a.
       bind_err (py_get episode ''agent_name'' (JPrim PNone)) (\<lambda>name.
       bind_err (py_get episode ''agent_role'' (JPrim PNone)) (\<lambda>role.
       bind_err (rewards_win rewards) (\<lambda>w.
       Inr (Some (\<lparr> num_actions = n, num_states = n_states, total_reward = total,
                     final_reward = final_r, final_action = final_a,
                     agent_name = name, agent_role = role,
                     outcome = None, loss_type = None \<rparr>, w))))))))))))))"

record summary_state =
  all_episodes :: "episode_data list"
  win_episodes :: "episode_data list"
  loss_episodes :: "episode_data list"
  loss_step_limit :: "episode_data list"
  loss_invalid_actions :: "episode_data list"
  sm_output :: "report list"

definition summary_init :: summary_state where
  "summary_init = \<lparr> all_episodes = [], win_episodes = [], loss_episodes = [],
                    loss_step_limit = [], loss_invalid_actions = [], sm_output = [] \<rparr>"

text \<open>
  The classification that ends the \<^verbatim>\<open>try\<close> block. The lists hold references to the one
  dict \<^verbatim>\<open>episode_data\<close>, so every list sees the keys \<^verbatim>\<open>outcome\<close> and \<^verbatim>\<open>loss_type\<close> that are
  set after the first \<^verbatim>\<open>append\<close>: the model appends the finished dict.
\<close>

definition summary_store :: "int \<Rightarrow> summary_state \<Rightarrow> episode_data \<Rightarrow> json \<Rightarrow> summary_state" where
  "summary_store step_limit_threshold st episode_data w =
     (if py_truthy w then
        (let d = episode_data \<lparr> outcome := Some ''win'' \<rparr>
         in st \<lparr> win_episodes := win_episodes st @ [d],
                  all_episodes := all_episodes st @ [d] \<rparr>)
      else if step_limit_threshold \<le> int (num_actions episode_data) then
        (let d = episode_data \<lparr> outcome := Some ''loss'', loss_type := Some ''step_limit'' \<rparr>
         in st \<lparr> loss_episodes := loss_episodes st @ [d],
                  loss_step_limit := loss_step_limit st @ [d],
                  all_episodes := all_episodes st @ [d] \<rparr>)
      else
        (let d = episode_data \<lparr> outcome := Some ''loss'', loss_type := Some ''invalid_actions'' \<rparr>
         in st \<lparr> loss_episodes := loss_episodes st @ [d],
                  loss_invalid_actions := loss_invalid_actions st @ [d],
                  all_episodes := all_episodes st @ [d] \<rparr>))"

text \<open>One turn of the line loop. The loop does not number the lines: the messages name
  the file only.\<close>

definition summary_line :: "int \<Rightarrow> string \<Rightarrow> summary_state \<Rightarrow> line \<Rightarrow> summary_state" where
  "summary_line step_limit_threshold filepath st l =
     (case l of
        Blank \<Rightarrow> st
      | Malformed e \<Rightarrow>
          st \<lparr> sm_output := sm_output st @ [ErrorParsing None (Some filepath) e] \<rparr>
      | Parsed episode \<Rightarrow>
          (case summary_episode episode of
             Inl e \<Rightarrow>
               st \<lparr> sm_output := sm_output st @ [ErrorProcessing None (Some filepath) e] \<rparr>
           | Inr None \<Rightarrow> st
           | Inr (Some (episode_data, w)) \<Rightarrow>
               summary_store step_limit_threshold st episode_data w))"

definition summary_lines :: "int \<Rightarrow> string \<Rightarrow> summary_state \<Rightarrow> line list \<Rightarrow> summary_state" where
  "summary_lines step_limit_threshold filepath st ls =
     foldl (summary_line step_limit_threshold filepath) st ls"

fun summary_files :: "filesystem \<Rightarrow> int \<Rightarrow> summary_state \<Rightarrow> string list \<Rightarrow> pyerr + summary_state" where
  "summary_files fs step_limit_threshold st [] = Inr st"
| "summary_files fs step_limit_threshold st (filepath # rest) =
     (case fs filepath of
        None \<Rightarrow> Inl FileNotFoundError
      | Some f \<Rightarrow>
          summary_files fs step_limit_threshold
            (summary_lines step_limit_threshold filepath st (file_lines f)) rest)"

definition analyze_episodes :: "filesystem \<Rightarrow> string list \<Rightarrow> int \<Rightarrow> pyerr + summary_state" where
  "analyze_episodes fs filepaths step_limit_threshold =
     summary_files fs step_limit_threshold summary_init filepaths"

section \<open>Early terminations (check\_all\_early\_terminations.py)\<close>

record early_info =
  et_file :: string
  et_line :: nat
  et_num_actions :: nat
  et_final_reward :: json
  et_total_reward :: rat
  et_end_reason :: json
  et_final_action :: json

text \<open>\<^verbatim>\<open>final_reward is not None and final_reward >= 50\<close>.\<close>

definition not_none_and_ge :: "json \<Rightarrow> rat \<Rightarrow> pyerr + bool" where
  "not_none_and_ge v c = (if v = JPrim PNone then Inr False else py_ge v c)"

text \<open>The \<^verbatim>\<open>try\<close> block up to the classification: the dict \<^verbatim>\<open>episode_info\<close> with the values
  of \<^verbatim>\<open>is_win\<close> and \<^verbatim>\<open>is_early_termination\<close> (\<open>win\<close>, \<open>early_termination\<close>).\<close>

definition early_episode :: "int \<Rightarrow> string \<Rightarrow> nat \<Rightarrow> json \<Rightarrow> pyerr + (early_info \<times> bool \<times> bool) option" where
  "early_episode step_threshold filepath line_num episode =
     bind_err (py_get episode ''trajectory'' (JDict [])) (\<lambda>trajectory.
     bind_err (py_get trajectory ''actions'' (JList [])) (\<lambda>actions.
     bind_err (py_get trajectory ''rewards'' (JList [])) (\<lambda>rewards.
     bind_err (py_len actions) (\<lambda>n.
     if n = 0 then Inr None
     else
       bind_err (if py_truthy rewards then py_last rewards else Inr (JPrim PNone)) (\<lambda>final_r.
       bind_err (py_get episode ''end_reason'' (JPrim PNone)) (\<lambda>end_reason.
       bind_err (not_none_and_ge final_r 50) (\<lambda>win.
       let early_termination = (\<not> win \<and> int n < step_threshold)
       in
       bind_err (if py_truthy rewards then py_sum rewards else Inr 0) (\<lambda>total.
       bind_err (if py_truthy actions
                 then bind_err (py_last actions) (\<lambda>a. py_get a ''action_type'' (JPrim PNone))
                 else Inr (JPrim PNone)) (\<lambda>final_a.
       Inr (Some (\<lparr> et_file = filepath, et_line = line_num, et_num_actions = n,
                     et_final_reward = final_r, et_total_reward = total,
                     et_end_reason = end_reason, et_final_action = final_a \<rparr>,
                  win, early_termination)))))))))))"

record early_state =
  all_early :: "early_info list"
  all_losses :: "early_info list"
  all_wins :: "early_info list"
  et_output :: "report list"

definition early_init :: early_state where
  "early_init = \<lparr> all_early = [], all_losses = [], all_wins = [], et_output = [] \<rparr>"

definition early_store :: "early_state \<Rightarrow> early_info \<Rightarrow> bool \<Rightarrow> bool \<Rightarrow> early_state" where
  "early_store st info win early_termination =
     (if win then st \<lparr> all_wins := all_wins st @ [info] \<rparr>
      else if early_termination then st \<lparr> all_early := all_early st @ [info] \<rparr>
      else st \<lparr> all_losses := all_losses st @ [info] \<rparr>)"

text \<open>One turn of the line loop: the messages give the line number and not the file.\<close>

definition early_line :: "int \<Rightarrow> string \<Rightarrow> nat \<Rightarrow> early_state \<Rightarrow> line \<Rightarrow> early_state" where
  "early_line step_threshold filepath line_num st l =
     (case l of
        Blank \<Rightarrow> st
      | Malformed e \<Rightarrow>
          st \<lparr> et_output := et_output st @ [ErrorParsing (Some line_num) None e] \<rparr>
      | Parsed episode \<Rightarrow>
          (case early_episode step_threshold filepath line_num episode of
             Inl e \<Rightarrow>
               st \<lparr> et_output := et_output st @ [ErrorProcessing (Some line_num) None e] \<rparr>
           | Inr None \<Rightarrow> st
           | Inr (Some (info, win, early_termination)) \<Rightarrow>
               early_store st info win early_termination))"




section \<open>Episode counter (count\_episodes.py)\<close>

text \<open>
  \<^verbatim>\<open>str(obj)\<close> and the formatting of a value in an f-string depend on Python's printing of
  numbers and containers; the functions below take it as the parameter \<open>py_str\<close>.
  A Python \<^verbatim>\<open>set\<close> is the list of its elements in the order of insertion; a key of a
  \<^verbatim>\<open>dict\<close> or an element of a \<^verbatim>\<open>set\<close> must be hashable, which a list and a dict are not.
\<close>

definition set_add :: "json list \<Rightarrow> json \<Rightarrow> pyerr + json list" where
  "set_add elems x =
     (case x of
        JPrim p \<Rightarrow> Inr (if list_ex (\<lambda>y. json_eq y x) elems then elems else elems @ [x])
      | JList xs \<Rightarrow> Inl TypeError
      | JDict kvs \<Rightarrow> Inl TypeError)"

definition dict_incr :: "(json \<times> nat) list \<Rightarrow> json \<Rightarrow> pyerr + (json \<times> nat) list" where
  "dict_incr d key =
     (case key of
        JPrim p \<Rightarrow> Inr (counter_incr json_eq d key)
      | JList xs \<Rightarrow> Inl TypeError
      | JDict kvs \<Rightarrow> Inl TypeError)"

text \<open>\<^verbatim>\<open>for host in hosts: s.add(host.get('ip'))\<close>.\<close>

fun collect_ips :: "json list \<Rightarrow> json list \<Rightarrow> pyerr + json list" where
  "collect_ips elems [] = Inr elems"
| "collect_ips elems (host # hosts) =
     bind_err (py_get host ''ip'' (JPrim PNone)) (\<lambda>ip.
     bind_err (set_add elems ip) (\<lambda>elems'. collect_ips elems' hosts))"

text \<open>\<^verbatim>\<open>for net in nets: s.add(f"{net.get('ip')}/{net.get('mask')}")\<close>.\<close>

fun collect_networks :: "(json \<Rightarrow> string) \<Rightarrow> string list \<Rightarrow> json list \<Rightarrow> pyerr + string list" where
  "collect_networks py_str elems [] = Inr elems"
| "collect_networks py_str elems (net # nets) =
     bind_err (py_get net ''ip'' (JPrim PNone)) (\<lambda>ip.
     bind_err (py_get net ''mask'' (JPrim PNone)) (\<lambda>mask.
     let net_str = py_str ip @ ''/'' @ py_str mask
     in collect_networks py_str (if net_str \<in> set elems then elems else elems @ [net_str]) nets))"

text \<open>The part of \<^verbatim>\<open>analyze_episode\<close> that reads the final state.\<close>

definition final_state_info ::
    "(json \<Rightarrow> string) \<Rightarrow> json \<Rightarrow> pyerr + (json list \<times> json list \<times> string list)" where
  "final_state_info py_str final_state =
     bind_err (py_get final_state ''controlled_hosts'' (JList [])) (\<lambda>chs.
     bind_err (py_iter chs) (\<lambda>ch_items.
     bind_err (collect_ips [] ch_items) (\<lambda>controlled.
     bind_err (py_get final_state ''known_hosts'' (JList [])) (\<lambda>khs.
     bind_err (py_iter khs) (\<lambda>kh_items.
     bind_err (collect_ips [] kh_items) (\<lambda>known.
     bind_err (py_get final_state ''known_networks'' (JList [])) (\<lambda>kns.
     bind_err (py_iter kns) (\<lambda>kn_items.
     bind_err (collect_networks py_str [] kn_items) (\<lambda>networks.
     Inr (controlled, known, networks))))))))))"

record episode_stats =
  es_num_states :: nat
  es_num_actions :: nat
  es_num_rewards :: nat
  es_total_reward :: rat
  es_controlled_hosts :: "json list"
  es_known_hosts :: "json list"
  es_known_networks :: "string list"
  es_end_reason :: json
  es_agent_name :: json
  es_agent_role :: json
  es_outcome :: string
  es_final_reward :: json
  es_final_action :: json
  es_file :: "string option"
  es_line_num :: "nat option"
  es_num_controlled_hosts :: "nat option"
  es_num_known_hosts :: "nat option"
  es_num_known_networks :: "nat option"

text \<open>\<^verbatim>\<open>analyze_episode\<close>. The outcome is decided by the rewards alone: \<^verbatim>\<open>'no_action'\<close>
  when there are none, else by the last one.\<close>

definition analyze_episode :: "(json \<Rightarrow> string) \<Rightarrow> json \<Rightarrow> pyerr + episode_stats" where
  "analyze_episode py_str episode_data =
     bind_err (py_get episode_data ''end_reason'' (JPrim PNone)) (\<lambda>end_reason.
     bind_err (py_get episode_data ''agent_name'' (JPrim PNone)) (\<lambda>name.
     bind_err (py_get episode_data ''agent_role'' (JPrim PNone)) (\<lambda>role.
     bind_err (py_get episode_data ''trajectory'' (JDict [])) (\<lambda>trajectory.
     bind_err (py_get trajectory ''states'' (JList [])) (\<lambda>states.
     bind_err (py_len states) (\<lambda>n_states.
     bind_err (py_get trajectory ''actions'' (JList [])) (\<lambda>actions.
     bind_err (py_len actions) (\<lambda>n_actions.
     bind_err (py_get trajectory ''rewards'' (JList [])) (\<lambda>rewards.
     bind_err (py_len rewards) (\<lambda>n_rewards.
     bind_err (if py_truthy rewards then py_sum rewards else Inr 0) (\<lambda>total.
     bind_err (if py_truthy rewards
               then bind_err (py_last rewards) (\<lambda>r.
                    bind_err (py_ge r 50) (\<lambda>b. Inr (r, if b then ''win'' else ''loss'')))
               else Inr (JPrim PNone, ''no_action'')) (\<lambda>(final_r, oc).
     bind_err (if py_truthy actions
               then bind_err (py_last actions)
                      (\<lambda>a. py_get a ''action_type'' (JPrim (PStr ''unknown'')))
               else Inr (JPrim PNone)) (\<lambda>final_a.
     bind_err (if py_truthy states
               then bind_err (py_last states) (final_state_info py_str)
               else Inr ([], [], [])) (\<lambda>(controlled, known, networks).
     Inr \<lparr> es_num_states = n_states, es_num_actions = n_actions, es_num_rewards = n_rewards,
           es_total_reward = total, es_controlled_hosts = controlled,
           es_known_hosts = known, es_known_networks = networks,
           es_end_reason = end_reason, es_agent_name = name, es_agent_role = role,
           es_outcome = oc, es_final_reward = final_r, es_final_action = final_a,
           es_file = None, es_line_num = None, es_num_controlled_hosts = None,
           es_num_known_hosts = None, es_num_known_networks = None \<rparr>))))))))))))))"

record file_stats =
  fs_episodes :: nat
  fs_total_actions :: nat
  fs_total_states :: nat
  fs_total_reward :: rat
  fs_size_bytes :: nat

record ce_results =
  total_episodes :: nat
  ce_files :: "(string \<times> file_stats) list"
  by_agent :: "(json \<times> nat) list"
  by_role :: "(json \<times> nat) list"
  by_end_reason :: "(string \<times> nat) list"
  by_outcome :: "(string \<times> nat) list"
  by_final_action :: "(json \<times> nat) list"
  ce_episode_details :: "episode_stats list"
  ce_output :: "report list"

definition ce_init :: ce_results where
  "ce_init = \<lparr> total_episodes = 0, ce_files = [], by_agent = [], by_role = [],
               by_end_reason = [], by_outcome = [], by_final_action = [],
               ce_episode_details = [], ce_output = [] \<rparr>"

text \<open>\<^verbatim>\<open>filepath.name\<close>: the last component of the path of a file.\<close>

definition path_name :: "string \<Rightarrow> string" where
  "path_name filepath = rev (takeWhile (\<lambda>c. c \<noteq> CHR ''/'') (rev filepath))"

text \<open>\<^verbatim>\<open>d[key] = value\<close> on a dict with string keys.\<close>

fun dict_set :: "(string \<times> 'v) list \<Rightarrow> string \<Rightarrow> 'v \<Rightarrow> (string \<times> 'v) list" where
  "dict_set [] key v = [(key, v)]"
| "dict_set ((k, w) # rest) key v =
     (if k = key then (k, v) # rest else (k, w) # dict_set rest key v)"

text \<open>
  The \<^verbatim>\<open>try\<close> block of \<^verbatim>\<open>analyze_jsonl_files\<close> after \<^verbatim>\<open>json.loads\<close>. Its statements
  update the counters one after the other, and several of them can raise; the result is
  the exception, if any, and the counters as they are when the block is left.
\<close>

definition ce_try ::
    "(json \<Rightarrow> string) \<Rightarrow> string \<Rightarrow> nat \<Rightarrow> file_stats \<times> ce_results \<Rightarrow> json
       \<Rightarrow> pyerr option \<times> file_stats \<times> ce_results" where
  "ce_try py_str filepath line_num s episode_data =
     (let stats1 = (fst s) \<lparr> fs_episodes := fs_episodes (fst s) + 1 \<rparr>;
          results1 = (snd s) \<lparr> total_episodes := total_episodes (snd s) + 1 \<rparr>
      in case analyze_episode py_str episode_data of
           Inl e \<Rightarrow> (Some e, stats1, results1)
         | Inr episode_stats \<Rightarrow>
             (let stats2 = stats1
                    \<lparr> fs_total_actions := fs_total_actions stats1 + es_num_actions episode_stats,
                      fs_total_states := fs_total_states stats1 + es_num_states episode_stats,
                      fs_total_reward := fs_total_reward stats1 + es_total_reward episode_stats \<rparr>
              in case dict_incr (by_agent results1) (es_agent_name episode_stats) of
                   Inl e \<Rightarrow> (Some e, stats2, results1)
                 | Inr agents \<Rightarrow>
                     (let results2 = results1 \<lparr> by_agent := agents \<rparr>
                      in case dict_incr (by_role results2) (es_agent_role episode_stats) of
                           Inl e \<Rightarrow> (Some e, stats2, results2)
                         | Inr roles \<Rightarrow>
                             (let results3 = results2
                                    \<lparr> by_role := roles,
                                      by_end_reason := counter_incr (=) (by_end_reason results2)
                                                         (py_str (es_end_reason episode_stats)),
                                      by_outcome := counter_incr (=) (by_outcome results2)
                                                      (es_outcome episode_stats) \<rparr>
                              in case (if py_truthy (es_final_action episode_stats)
                                       then dict_incr (by_final_action results3)
                                              (es_final_action episode_stats)
                                       else Inr (by_final_action results3)) of
                                   Inl e \<Rightarrow> (Some e, stats2, results3)
                                 | Inr final_actions \<Rightarrow>
                                     (None, stats2,
                                      results3
                                        \<lparr> by_final_action := final_actions,
                                          ce_episode_details := ce_episode_details results3 @
                                            [episode_stats
                                               \<lparr> es_file := Some (path_name filepath),
                                                 es_line_num := Some line_num,
                                                 es_num_controlled_hosts :=
                                                   Some (length (es_controlled_hosts episode_stats)),
                                                 es_num_known_hosts :=
                                                   Some (length (es_known_hosts episode_stats)),
                                                 es_num_known_networks :=
                                                   Some (length (es_known_networks episode_stats)) \<rparr>] \<rparr>)))))"

definition ce_line ::
    "(json \<Rightarrow> string) \<Rightarrow> string \<Rightarrow> nat \<Rightarrow> file_stats \<times> ce_results \<Rightarrow> line
       \<Rightarrow> file_stats \<times> ce_results" where
  "ce_line py_str filepath line_num s l =
     (case l of
        Blank \<Rightarrow> s
      | Malformed e \<Rightarrow>
          (fst s, (snd s) \<lparr> ce_output := ce_output (snd s) @
                                [ErrorParsing (Some line_num) (Some filepath) e] \<rparr>)
      | Parsed episode_data \<Rightarrow>
          (case ce_try py_str filepath line_num s episode_data of
             (None, stats, results) \<Rightarrow> (stats, results)
           | (Some e, stats, results) \<Rightarrow>
               (stats, results \<lparr> ce_output := ce_output results @
                                   [ErrorProcessing (Some line_num) (Some filepath) e] \<rparr>)))"

fun ce_lines ::
    "(json \<Rightarrow> string) \<Rightarrow> string \<Rightarrow> nat \<Rightarrow> file_stats \<times> ce_results \<Rightarrow> line list
       \<Rightarrow> file_stats \<times> ce_results" where
  "ce_lines py_str filepath line_num s [] = s"
| "ce_lines py_str filepath line_num s (l # ls) =
     ce_lines py_str filepath (Suc line_num) (ce_line py_str filepath line_num s l) ls"

text \<open>The loop over the files: a missing file is announced and skipped.\<close>

fun analyze_files :: "(json \<Rightarrow> string) \<Rightarrow> filesystem \<Rightarrow> ce_results \<Rightarrow> string list \<Rightarrow> ce_results" where
  "analyze_files py_str fs results [] = results"
| "analyze_files py_str fs results (filepath # rest) =
     (case fs filepath of
        None \<Rightarrow>
          analyze_files py_str fs
            (results \<lparr> ce_output := ce_output results @ [WarningFileNotFound filepath] \<rparr>) rest
      | Some f \<Rightarrow>
          (let stats0 = \<lparr> fs_episodes = 0, fs_total_actions = 0, fs_total_states = 0,
                          fs_total_reward = 0, fs_size_bytes = st_size f \<rparr>;
               s = ce_lines py_str filepath 1 (stats0, results) (file_lines f)
           in analyze_files py_str fs
                ((snd s) \<lparr> ce_files := dict_set (ce_files (snd s)) filepath (fst s) \<rparr>) rest))"

definition analyze_jsonl_files :: "(json \<Rightarrow> string) \<Rightarrow> filesystem \<Rightarrow> string list \<Rightarrow> ce_results" where
  "analyze_jsonl_files py_str fs filepaths = analyze_files py_str fs ce_init filepaths"

section \<open>Loading the episodes (investigate\_end\_condition.py)\<close>



subsection \<open>Sequences that read as the items of a mapping\<close>




subsection \<open>The repetition counts, as the specification words them\<close>

text \<open>
  The number of occurrences of a key in a sequence of keys, and the distinct keys of the
  sequence: one key for each class of equal keys, in the order of first occurrence. The
  repeated keys are the distinct keys that occur more than once.
\<close>

definition occurrences :: "hashable list \<Rightarrow> hashable \<Rightarrow> nat" where
  "occurrences ks h = length (filter (key_eq h) ks)"

fun distinct_keys :: "hashable list \<Rightarrow> hashable list" where
  "distinct_keys [] = []"
| "distinct_keys (k # ks) = k # filter (\<lambda>h. \<not> key_eq k h) (distinct_keys ks)"

definition repeated_keys :: "hashable list \<Rightarrow> hashable list" where
  "repeated_keys ks = filter (\<lambda>h. occurrences ks h > 1) (distinct_keys ks)"

subsection \<open>The partition of the losses, as the specification words it\<close>

text \<open>The step-limit losses are the losses with at least \<open>thr\<close> actions, the
  invalid-action losses are the others, and \<^verbatim>\<open>loss_type\<close> says which.\<close>

definition loss_partition :: "int \<Rightarrow> summary_state \<Rightarrow> bool" where
  "loss_partition thr st =
     (loss_step_limit st = filter (\<lambda>d. thr \<le> int (num_actions d)) (loss_episodes st) \<and>
      loss_invalid_actions st = filter (\<lambda>d. \<not> thr \<le> int (num_actions d)) (loss_episodes st) \<and>
      (\<forall>d \<in> set (loss_episodes st).
         loss_type d = Some (if thr \<le> int (num_actions d) then ''step_limit'' else ''invalid_actions'')))"

subsection \<open>Episode records\<close>




subsection \<open>A sample input\<close>

text \<open>
  A file of six lines: an episode won with two equal actions written in different key
  orders, a blank line, a line the decoder rejects, an episode lost with a final reward
  of 49.9 (as a float: the number 7022800668930867 / 140737488355328), an episode without
  actions, and a line that parses to a list.
\<close>

definition sample_action :: json where
  "sample_action = JDict [(''action_type'', JPrim (PStr ''ScanNetwork'')),
                          (''parameters'', JDict [(''a'', JPrim (PInt 1)), (''b'', JPrim (PInt 2))])]"

definition sample_action_reordered :: json where
  "sample_action_reordered = JDict [(''parameters'', JDict [(''b'', JPrim (PInt 2)), (''a'', JPrim (PInt 1))]),
                                    (''action_type'', JPrim (PStr ''ScanNetwork''))]"

definition sample_win :: json where
  "sample_win = JDict [(''trajectory'', JDict [(''actions'', JList [sample_action, sample_action_reordered]),
                                               (''rewards'', JList [JPrim (PInt 0), JPrim (PInt 50)]),
                                               (''states'', JList [])]),
                       (''agent_name'', JPrim (PStr ''attacker''))]"

definition sample_loss :: json where
  "sample_loss = JDict [(''trajectory'', JDict [(''actions'', JList [sample_action]),
                                                (''rewards'', JList [JPrim (PFloat (7022800668930867 / 140737488355328))]),
                                                (''states'', JList [])])]"

definition sample_no_action :: json where
  "sample_no_action = JDict [(''trajectory'', JDict [(''actions'', JList []), (''rewards'', JList [])])]"

definition sample_lines :: "line list" where
  "sample_lines = [Parsed sample_win, Blank, Malformed ''Expecting value'', Parsed sample_loss,
                   Parsed sample_no_action, Parsed (JList [])]"

definition sample_fs :: filesystem where
  "sample_fs = map_of [(''run.jsonl'', \<lparr> st_size = 512, file_lines = sample_lines \<rparr>)]"

text \<open>A value for the parameter \<open>py_str\<close>: it is \<^verbatim>\<open>str\<close> on \<^verbatim>\<open>None\<close> and on strings, the
  only values the sample gives it.\<close>

fun sample_str :: "json \<Rightarrow> string" where
  "sample_str (JPrim PNone) = ''None''"
| "sample_str (JPrim (PStr s)) = s"
| "sample_str v = ''?''"

section \<open>Properties of the canonical form\<close>

text \<open>Python equality of keys is an equivalence relation.\<close>

lemma prim_eq_refl: "prim_eq p p"
  by (cases p) (auto simp: prim_eq_def)

lemma prim_eq_sym: "prim_eq p q \<Longrightarrow> prim_eq q p"
  by (auto simp: prim_eq_def split: option.splits)

lemma prim_eq_trans: "prim_eq p q \<Longrightarrow> prim_eq q r \<Longrightarrow> prim_eq p r"
  by (auto simp: prim_eq_def split: option.splits)

lemma key_eq_refl: "key_eq h h"
  by (induction h) (auto simp: prim_eq_refl list_all2_same)

lemma key_eq_sym: "key_eq a b \<Longrightarrow> key_eq b a"
proof (induction a arbitrary: b)
  case (HPrim p)
  then show ?case by (cases b) (auto dest: prim_eq_sym)
next
  case (HTuple xs)
  show ?case
  proof (cases b)
    case (HPrim q)
    then show ?thesis using HTuple.prems by simp
  next
    case b: (HTuple ys)
    then have l: "length xs = length ys" and n: "\<And>i. i < length xs \<Longrightarrow> key_eq (xs ! i) (ys ! i)"
      using HTuple.prems by (simp_all add: list_all2_conv_all_nth)
    have "\<And>i. i < length xs \<Longrightarrow> key_eq (ys ! i) (xs ! i)"
      using HTuple.IH n nth_mem by blast
    then show ?thesis using b l by (simp add: list_all2_conv_all_nth)
  qed
qed

lemma key_eq_trans: "key_eq a b \<Longrightarrow> key_eq b c \<Longrightarrow> key_eq a c"
proof (induction a arbitrary: b c)
  case (HPrim p)
  then show ?case by (cases b; cases c) (auto dest: prim_eq_trans)
next
  case (HTuple xs)
  from HTuple.prems(1) obtain ys where b: "b = HTuple ys" by (cases b) auto
  from HTuple.prems(2) b obtain zs where c: "c = HTuple zs" by (cases c) auto
  have l: "length xs = length ys" and n: "\<And>i. i < length xs \<Longrightarrow> key_eq (xs ! i) (ys ! i)"
    using HTuple.prems(1) b by (simp_all add: list_all2_conv_all_nth)
  have l2: "length ys = length zs" and n2: "\<And>i. i < length ys \<Longrightarrow> key_eq (ys ! i) (zs ! i)"
    using HTuple.prems(2) b c by (simp_all add: list_all2_conv_all_nth)
  have "\<And>i. i < length xs \<Longrightarrow> key_eq (xs ! i) (zs ! i)"
    using HTuple.IH n n2 l nth_mem by metis
  then show ?case using c l l2 by (simp add: list_all2_conv_all_nth)
qed






text \<open>
  C6. The case-wise contract of \<open>make_hashable\<close>: a primitive (null, boolean, integer,
  float or string) is returned as it is; a list becomes the tuple of the canonical forms
  of its elements, in the same order; a dict becomes a tuple of \<open>(key, canonical value)\<close>
  pairs that holds exactly the pairs of the dict and is in ascending order of the keys.
\<close>

theorem make_hashable_contract:
  "make_hashable (JPrim p) = HPrim p \<and>
   make_hashable (JList xs) = HTuple (map make_hashable xs) \<and>
   (\<exists>ps. make_hashable (JDict kvs) = HTuple (map (\<lambda>(k, h). HTuple [HPrim (PStr k), h]) ps)
      \<and> mset ps = mset (map (\<lambda>(k, v). (k, make_hashable v)) kvs)
      \<and> sorted (map fst ps))"
proof -
  let ?ps = "sort_key fst (map (\<lambda>(k, v). (k, make_hashable v)) kvs)"
  have "pair_tuple = (\<lambda>(k, h). HTuple [HPrim (PStr k), h])"
    by (auto simp: pair_tuple_def fun_eq_iff)
  then have "make_hashable (JDict kvs) = HTuple (map (\<lambda>(k, h). HTuple [HPrim (PStr k), h]) ?ps)"
    by (simp add: py_sorted_items_def)
  moreover have "mset ?ps = mset (map (\<lambda>(k, v). (k, make_hashable v)) kvs)" by simp
  moreover have "sorted (map fst ?ps)" by simp
  ultimately have "\<exists>ps. make_hashable (JDict kvs) = HTuple (map (\<lambda>(k, h). HTuple [HPrim (PStr k), h]) ps)
            \<and> mset ps = mset (map (\<lambda>(k, v). (k, make_hashable v)) kvs)
            \<and> sorted (map fst ps)"
    by blast
  then show ?thesis by simp
qed

section \<open>Properties of the repetition counter\<close>

lemma distinct_keys_subset: "set (distinct_keys ks) \<subseteq> set ks"
  by (induction ks) auto

lemma distinct_keys_cover: "k \<in> set ks \<Longrightarrow> \<exists>h \<in> set (distinct_keys ks). key_eq h k"
proof (induction ks)
  case Nil then show ?case by simp
next
  case (Cons a ks)
  show ?case
  proof (cases "key_eq a k")
    case True then show ?thesis by auto
  next
    case False
    have "k \<noteq> a" using False key_eq_refl by auto
    then have "k \<in> set ks" using Cons.prems by simp
    then obtain h where h: "h \<in> set (distinct_keys ks)" "key_eq h k" using Cons.IH by blast
    have "\<not> key_eq a h" using False h(2) key_eq_trans by blast
    then show ?thesis using h by auto
  qed
qed

lemma distinct_keys_snoc:
  "distinct_keys (ks @ [k]) =
     (if \<exists>h \<in> set ks. key_eq h k then distinct_keys ks else distinct_keys ks @ [k])"
proof (induction ks)
  case Nil then show ?case by simp
next
  case (Cons a ks)
  show ?case
  proof (cases "\<exists>h \<in> set ks. key_eq h k")
    case True
    then have "distinct_keys (ks @ [k]) = distinct_keys ks" using Cons.IH by simp
    moreover have "\<exists>h \<in> set (a # ks). key_eq h k" using True by simp
    ultimately show ?thesis by (simp del: set_simps)
  next
    case False
    then have e: "distinct_keys (ks @ [k]) = distinct_keys ks @ [k]" using Cons.IH by simp
    show ?thesis
    proof (cases "key_eq a k")
      case True
      then show ?thesis using e by simp
    next
      case F2: False
      then have "\<not> (\<exists>h \<in> set (a # ks). key_eq h k)" using False by simp
      then show ?thesis using e F2 by (simp del: set_simps)
    qed
  qed
qed

lemma occurrences_snoc:
  "occurrences (ks @ [k]) h = occurrences ks h + (if key_eq h k then 1 else 0)"
  by (simp add: occurrences_def)


lemma distinct_keys_inequiv:
  "h \<in> set (distinct_keys ks) \<Longrightarrow> h' \<in> set (distinct_keys ks) \<Longrightarrow> key_eq h h' \<Longrightarrow> h = h'"
proof (induction ks)
  case Nil then show ?case by simp
next
  case (Cons a ks)
  let ?F = "filter (\<lambda>h. \<not> key_eq a h) (distinct_keys ks)"
  from Cons.prems(1) have h: "h = a \<or> h \<in> set ?F" by simp
  from Cons.prems(2) have h': "h' = a \<or> h' \<in> set ?F" by simp
  show ?case
  proof (cases "h = a")
    case True
    then have "\<not> h' \<in> set ?F" using Cons.prems(3) by simp
    then show ?thesis using h' True by blast
  next
    case False
    then have hF: "h \<in> set ?F" using h by blast
    show ?thesis
    proof (cases "h' = a")
      case True
      then have "key_eq a h" using Cons.prems(3) key_eq_sym by blast
      then show ?thesis using hF by simp
    next
      case F2: False
      then have "h' \<in> set ?F" using h' by blast
      then show ?thesis using hF Cons.IH Cons.prems(3) by simp
    qed
  qed
qed

lemma distinct_keys_distinct: "distinct (distinct_keys ks)"
  by (induction ks) (simp_all add: key_eq_refl)

lemma counter_incr_absent:
  "(\<forall>h \<in> set F. \<not> key_eq h k) \<Longrightarrow>
   counter_incr key_eq (map (\<lambda>h. (h, c h)) F) k = map (\<lambda>h. (h, c h)) F @ [(k, 1)]"
  by (induction F) simp_all

lemma counter_incr_present:
  assumes "\<exists>h \<in> set F. key_eq h k"
      and "distinct F"
      and "\<And>h h'. h \<in> set F \<Longrightarrow> h' \<in> set F \<Longrightarrow> key_eq h k \<Longrightarrow> key_eq h' k \<Longrightarrow> h = h'"
  shows "counter_incr key_eq (map (\<lambda>h. (h, c h)) F) k =
         map (\<lambda>h. (h, c h + (if key_eq h k then 1 else 0))) F"
  using assms
proof (induction F)
  case Nil then show ?case by simp
next
  case (Cons a F)
  show ?case
  proof (cases "key_eq a k")
    case True
    have "\<And>h. h \<in> set F \<Longrightarrow> \<not> key_eq h k"
    proof
      fix h assume h: "h \<in> set F" and e: "key_eq h k"
      have "h = a" using Cons.prems(3) [of h a] h e True by simp
      then show False using h Cons.prems(2) by simp
    qed
    then have "map (\<lambda>h. (h, c h + (if key_eq h k then 1 else 0))) F = map (\<lambda>h. (h, c h)) F"
      by simp
    then show ?thesis using True by simp
  next
    case False
    then have 1: "\<exists>h \<in> set F. key_eq h k" using Cons.prems(1) by simp
    have 2: "distinct F" using Cons.prems(2) by simp
    have "counter_incr key_eq (map (\<lambda>h. (h, c h)) F) k =
          map (\<lambda>h. (h, c h + (if key_eq h k then 1 else 0))) F"
      using Cons.IH [OF 1 2] Cons.prems(3) by simp
    then show ?thesis using False by simp
  qed
qed

lemma occurrences_absent: "(\<forall>h \<in> set ks. \<not> key_eq h k) \<Longrightarrow> occurrences ks k = 0"
proof -
  assume a: "\<forall>h \<in> set ks. \<not> key_eq h k"
  have "\<forall>h \<in> set ks. \<not> key_eq k h" using a key_eq_sym by blast
  then show ?thesis by (simp add: occurrences_def filter_empty_conv)
qed

lemma counter_foldl:
  "foldl (counter_incr key_eq) [] ks = map (\<lambda>h. (h, occurrences ks h)) (distinct_keys ks)"
proof (induction ks rule: rev_induct)
  case Nil then show ?case by simp
next
  case (snoc k ks)
  let ?F = "distinct_keys ks"
  have step: "foldl (counter_incr key_eq) [] (ks @ [k]) =
              counter_incr key_eq (map (\<lambda>h. (h, occurrences ks h)) ?F) k"
    using snoc.IH by simp
  show ?case
  proof (cases "\<exists>h \<in> set ks. key_eq h k")
    case True
    then obtain h0 where h0: "h0 \<in> set ks" "key_eq h0 k" by blast
    obtain h1 where h1: "h1 \<in> set ?F" "key_eq h1 h0" using distinct_keys_cover [OF h0(1)] by blast
    have ex: "\<exists>h \<in> set ?F. key_eq h k" using h1 h0(2) key_eq_trans by blast
    have uniq: "\<And>h h'. h \<in> set ?F \<Longrightarrow> h' \<in> set ?F \<Longrightarrow> key_eq h k \<Longrightarrow> key_eq h' k \<Longrightarrow> h = h'"
    proof -
      fix h h' assume a: "h \<in> set ?F" "h' \<in> set ?F" "key_eq h k" "key_eq h' k"
      have "key_eq h h'" using a(3,4) key_eq_sym key_eq_trans by blast
      then show "h = h'" using distinct_keys_inequiv a(1,2) by blast
    qed
    have "counter_incr key_eq (map (\<lambda>h. (h, occurrences ks h)) ?F) k =
          map (\<lambda>h. (h, occurrences ks h + (if key_eq h k then 1 else 0))) ?F"
      by (rule counter_incr_present [OF ex distinct_keys_distinct uniq])
    moreover have "distinct_keys (ks @ [k]) = ?F" using True by (simp add: distinct_keys_snoc)
    ultimately show ?thesis using step by (simp add: occurrences_snoc)
  next
    case False
    have nF: "\<forall>h \<in> set ?F. \<not> key_eq h k" using False distinct_keys_subset by blast
    have "counter_incr key_eq (map (\<lambda>h. (h, occurrences ks h)) ?F) k =
          map (\<lambda>h. (h, occurrences ks h)) ?F @ [(k, 1)]"
      by (rule counter_incr_absent [OF nF])
    moreover have "distinct_keys (ks @ [k]) = ?F @ [k]" using False by (simp add: distinct_keys_snoc)
    moreover have "occurrences ks k = 0" using False by (simp add: occurrences_absent)
    moreover have "\<And>h. h \<in> set ?F \<Longrightarrow> occurrences (ks @ [k]) h = occurrences ks h"
      using nF by (simp add: occurrences_snoc)
    ultimately show ?thesis using step by (simp add: occurrences_snoc key_eq_refl)
  qed
qed

lemma count_actions_eq:
  "count_actions actions =
     map (\<lambda>h. (h, occurrences (map make_hashable actions) h)) (distinct_keys (map make_hashable actions))"
proof -
  have "count_actions actions = foldl (counter_incr key_eq) [] (map make_hashable actions)"
    by (simp add: count_actions_def action_to_hashable_def foldl_map)
  then show ?thesis by (simp add: counter_foldl)
qed


text \<open>
  C3. For an episode whose actions are a non-empty sequence, the repetition counter
  records the length of the sequence as \<open>total_actions\<close>, the number of distinct canonical
  keys as \<open>unique_actions\<close>, the number of distinct keys that occur more than once as
  \<open>num_repeated_actions\<close>, and the sum of (count - 1) over those keys as
  \<open>total_repetitions\<close>. The two actions \<^verbatim>\<open>{"a":1,"b":2}\<close> and \<^verbatim>\<open>{"b":2,"a":1}\<close> give
  2, 1, 1 and 1.
\<close>

theorem repetition_counter:
  "(py_get episode ''trajectory'' (JDict []) = Inr trajectory \<and>
    py_get trajectory ''actions'' (JList []) = Inr (JList actions) \<and> actions \<noteq> [] \<and>
    py_get trajectory ''rewards'' (JList []) = Inr rewards \<and>
    rewards_win rewards = Inr w \<longrightarrow>
    (\<exists>info. ra_episode filepath line_num episode = Inr (Some info) \<and>
       total_actions info = length actions \<and>
       unique_actions info = length (distinct_keys (map make_hashable actions)) \<and>
       num_repeated_actions info = length (repeated_keys (map make_hashable actions)) \<and>
       total_repetitions info =
         (\<Sum>h \<leftarrow> repeated_keys (map make_hashable actions).
            occurrences (map make_hashable actions) h - 1)))
   \<and>
   (\<exists>info. ra_episode filepath line_num
       (JDict [(''trajectory'', JDict [(''actions'',
          JList [JDict [(''a'', JPrim (PInt 1)), (''b'', JPrim (PInt 2))],
                 JDict [(''b'', JPrim (PInt 2)), (''a'', JPrim (PInt 1))]])])]) = Inr (Some info) \<and>
       total_actions info = 2 \<and> unique_actions info = 1 \<and>
       num_repeated_actions info = 1 \<and> total_repetitions info = 1)"
proof (intro conjI impI)
  assume a: "py_get episode ''trajectory'' (JDict []) = Inr trajectory \<and>
    py_get trajectory ''actions'' (JList []) = Inr (JList actions) \<and> actions \<noteq> [] \<and>
    py_get trajectory ''rewards'' (JList []) = Inr rewards \<and>
    rewards_win rewards = Inr w"
  let ?ks = "map make_hashable actions"
  let ?occ = "occurrences ?ks"
  let ?cs = "map snd (count_actions actions)"
  let ?info = "\<lparr> ei_file = filepath, ei_line = line_num, total_actions = length actions,
      unique_actions = length (count_actions actions),
      num_repeated_actions = length (filter (\<lambda>count. count > 1) ?cs),
      total_repetitions = sum_list (map (\<lambda>count. count - 1) (filter (\<lambda>count. count > 1) ?cs)),
      repeat_percentage =
        of_nat (sum_list (map (\<lambda>count. count - 1) (filter (\<lambda>count. count > 1) ?cs)))
          / of_nat (length actions) * 100,
      is_win = w \<rparr>"
  have c: "?cs = map ?occ (distinct_keys ?ks)"
    by (simp add: count_actions_eq comp_def)
  have f: "filter (\<lambda>count. count > 1) ?cs = map ?occ (repeated_keys ?ks)"
    unfolding c by (simp add: repeated_keys_def filter_map comp_def)
  have v: "ra_episode filepath line_num episode = Inr (Some ?info)"
    using a by (simp add: ra_episode_def bind_err_def Let_def)
  have t1: "total_actions ?info = length actions" by simp
  have t2: "unique_actions ?info = length (distinct_keys ?ks)"
    by (simp add: count_actions_eq)
  have t3: "num_repeated_actions ?info = length (repeated_keys ?ks)"
    using arg_cong [OF f, of length] by simp
  have t4: "total_repetitions ?info = (\<Sum>h \<leftarrow> repeated_keys ?ks. ?occ h - 1)"
    using arg_cong [OF f, of "\<lambda>l. sum_list (map (\<lambda>count. count - 1) l)"] by (simp add: comp_def)
  show "\<exists>info. ra_episode filepath line_num episode = Inr (Some info) \<and>
       total_actions info = length actions \<and>
       unique_actions info = length (distinct_keys ?ks) \<and>
       num_repeated_actions info = length (repeated_keys ?ks) \<and>
       total_repetitions info = (\<Sum>h \<leftarrow> repeated_keys ?ks. ?occ h - 1)"
    using v t1 t2 t3 t4 by blast
next
  show "\<exists>info. ra_episode filepath line_num
       (JDict [(''trajectory'', JDict [(''actions'',
          JList [JDict [(''a'', JPrim (PInt 1)), (''b'', JPrim (PInt 2))],
                 JDict [(''b'', JPrim (PInt 2)), (''a'', JPrim (PInt 1))]])])]) = Inr (Some info) \<and>
       total_actions info = 2 \<and> unique_actions info = 1 \<and>
       num_repeated_actions info = 1 \<and> total_repetitions info = 1"
    by (simp add: ra_episode_def bind_err_def Let_def count_actions_def action_to_hashable_def
        rewards_win_def py_sorted_items_def pair_tuple_def prim_eq_def)
qed

theorem repetition_counter_witness:
  "py_get (JDict [(''trajectory'', JDict [(''actions'',
        JList [JDict [(''a'', JPrim (PInt 1)), (''b'', JPrim (PInt 2))],
               JDict [(''b'', JPrim (PInt 2)), (''a'', JPrim (PInt 1))]]),
        (''rewards'', JList [JPrim (PInt 0), JPrim (PInt 50)])])])
      ''trajectory'' (JDict [])
    = Inr (JDict [(''actions'',
        JList [JDict [(''a'', JPrim (PInt 1)), (''b'', JPrim (PInt 2))],
               JDict [(''b'', JPrim (PInt 2)), (''a'', JPrim (PInt 1))]]),
        (''rewards'', JList [JPrim (PInt 0), JPrim (PInt 50)])]) \<and>
   rewards_win (JList [JPrim (PInt 0), JPrim (PInt 50)]) = Inr (JPrim (PBool True)) \<and>
   (\<exists>info. ra_episode ''episodes.jsonl'' 1
       (JDict [(''trajectory'', JDict [(''actions'',
        JList [JDict [(''a'', JPrim (PInt 1)), (''b'', JPrim (PInt 2))],
               JDict [(''b'', JPrim (PInt 2)), (''a'', JPrim (PInt 1))]]),
        (''rewards'', JList [JPrim (PInt 0), JPrim (PInt 50)])])]) = Inr (Some info) \<and>
      total_actions info = 2 \<and>
      unique_actions info = length (distinct_keys (map make_hashable
        [JDict [(''a'', JPrim (PInt 1)), (''b'', JPrim (PInt 2))],
         JDict [(''b'', JPrim (PInt 2)), (''a'', JPrim (PInt 1))]])))"
proof -
  let ?acts = "[JDict [(''a'', JPrim (PInt 1)), (''b'', JPrim (PInt 2))],
                JDict [(''b'', JPrim (PInt 2)), (''a'', JPrim (PInt 1))]]"
  let ?rew = "JList [JPrim (PInt 0), JPrim (PInt 50)]"
  let ?traj = "JDict [(''actions'', JList ?acts), (''rewards'', ?rew)]"
  let ?ep = "JDict [(''trajectory'', ?traj)]"
  have h1: "py_get ?ep ''trajectory'' (JDict []) = Inr ?traj" by simp
  have h2: "py_get ?traj ''actions'' (JList []) = Inr (JList ?acts)" by simp
  have h3: "?acts \<noteq> []" by simp
  have h4: "py_get ?traj ''rewards'' (JList []) = Inr ?rew" by simp
  have h5: "rewards_win ?rew = Inr (JPrim (PBool True))"
    by (simp add: rewards_win_def bind_err_def)
  have "\<exists>info. ra_episode ''episodes.jsonl'' 1 ?ep = Inr (Some info) \<and>
       total_actions info = length ?acts \<and>
       unique_actions info = length (distinct_keys (map make_hashable ?acts)) \<and>
       num_repeated_actions info = length (repeated_keys (map make_hashable ?acts)) \<and>
       total_repetitions info =
         (\<Sum>h \<leftarrow> repeated_keys (map make_hashable ?acts).
            occurrences (map make_hashable ?acts) h - 1)"
    using repetition_counter [of ?ep ?traj ?acts ?rew "JPrim (PBool True)" "''episodes.jsonl''" 1]
      h1 h2 h3 h4 h5 by blast
  then obtain info where i: "ra_episode ''episodes.jsonl'' 1 ?ep = Inr (Some info)"
      "total_actions info = length ?acts"
      "unique_actions info = length (distinct_keys (map make_hashable ?acts))"
    by blast
  have "total_actions info = 2" using i(2) by simp
  then show ?thesis using h1 h5 i(1,3) by blast
qed

section \<open>Invariants of the recorded results\<close>

lemma counter_incr_sum: "sum_list (map snd (counter_incr eq c k)) = Suc (sum_list (map snd c))"
  by (induction c) auto

lemma counter_incr_pos:
  "(\<forall>x \<in> set c. 0 < snd x) \<Longrightarrow> (\<forall>x \<in> set (counter_incr eq c k). 0 < snd x)"
proof (induction c)
  case Nil then show ?case by simp
next
  case (Cons a c)
  obtain h n where a: "a = (h, n)" by (cases a)
  have n: "0 < n" using Cons.prems a by simp
  have r: "\<forall>x \<in> set c. 0 < snd x" using Cons.prems by simp
  have ih: "\<forall>x \<in> set (counter_incr eq c k). 0 < snd x" using Cons.IH r by blast
  show ?case
  proof (cases "eq h k")
    case True then show ?thesis using a r by simp
  next
    case False then show ?thesis using a n ih by simp
  qed
qed

lemma counter_foldl_sum:
  "sum_list (map snd (foldl (\<lambda>c a. counter_incr eq c (f a)) c0 xs)) = sum_list (map snd c0) + length xs"
  by (induction xs arbitrary: c0) (simp_all add: counter_incr_sum)

lemma counter_foldl_pos:
  "(\<forall>x \<in> set c0. 0 < snd x) \<Longrightarrow>
   (\<forall>x \<in> set (foldl (\<lambda>c a. counter_incr eq c (f a)) c0 xs). 0 < snd x)"
proof (induction xs arbitrary: c0)
  case Nil then show ?case by simp
next
  case (Cons a xs)
  have "\<forall>x \<in> set (counter_incr eq c0 (f a)). 0 < snd x"
    using Cons.prems by (rule counter_incr_pos)
  then show ?case using Cons.IH by simp
qed

lemma repetitions_sum:
  "(\<forall>c \<in> set cs. 0 < c) \<Longrightarrow>
   sum_list (map (\<lambda>c. c - 1) (filter (\<lambda>c. c > 1) cs)) + length cs = sum_list (cs :: nat list)"
  by (induction cs) auto

lemma count_actions_total:
  "sum_list (map (\<lambda>c. c - 1) (filter (\<lambda>c. c > 1) (map snd (count_actions items))))
     + length (count_actions items) = length items"
proof -
  let ?cs = "map snd (count_actions items)"
  have "\<forall>x \<in> set (count_actions items). 0 < snd x"
    unfolding count_actions_def by (rule counter_foldl_pos) simp
  then have p: "\<forall>c \<in> set ?cs. 0 < c" by simp
  have s: "sum_list ?cs = length items"
    unfolding count_actions_def using counter_foldl_sum [of _ _ "[]"] by simp
  show ?thesis using repetitions_sum [OF p] s by simp
qed

lemma py_len_iter: "py_len x = Inr n \<Longrightarrow> py_iter x = Inr xs \<Longrightarrow> length xs = n"
  by (cases x rule: py_len.cases) auto

lemma ra_episode_ok:
  assumes "ra_episode filepath line_num episode = Inr (Some info)"
  shows "total_repetitions info + unique_actions info = total_actions info"
proof -
  from assms obtain actions items n where
    l: "py_len actions = Inr n" and it: "py_iter actions = Inr items" and
    i: "total_repetitions info = sum_list (map (\<lambda>c. c - 1) (filter (\<lambda>c. c > 1) (map snd (count_actions items))))"
       "unique_actions info = length (count_actions items)" "total_actions info = n"
    by (auto simp: ra_episode_def bind_err_def Let_def split: sum.splits if_splits)
  have "length items = n" using py_len_iter [OF l it] .
  then show ?thesis using i count_actions_total [of items] by simp
qed


lemma ra_store_details: "episode_details (ra_store st info) = episode_details st @ [info]"
  by (simp add: ra_store_def Let_def)

lemma ra_line_details:
  assumes "\<forall>i \<in> set (episode_details st). total_repetitions i + unique_actions i = total_actions i"
  shows "\<forall>i \<in> set (episode_details (ra_line filepath line_num st l)).
           total_repetitions i + unique_actions i = total_actions i"
proof (cases l)
  case Blank then show ?thesis using assms by (simp add: ra_line_def)
next
  case (Malformed e) then show ?thesis using assms by (simp add: ra_line_def)
next
  case (Parsed episode)
  show ?thesis
  proof (cases "ra_episode filepath line_num episode")
    case (Inl e) then show ?thesis using assms Parsed by (simp add: ra_line_def)
  next
    case (Inr r)
    show ?thesis
    proof (cases r)
      case None then show ?thesis using assms Parsed Inr by (simp add: ra_line_def)
    next
      case (Some info)
      have "total_repetitions info + unique_actions info = total_actions info"
        using ra_episode_ok Inr Some by blast
      then show ?thesis using assms Parsed Inr Some by (simp add: ra_line_def ra_store_details)
    qed
  qed
qed

lemma ra_lines_details:
  "\<forall>i \<in> set (episode_details st). total_repetitions i + unique_actions i = total_actions i \<Longrightarrow>
   \<forall>i \<in> set (episode_details (ra_lines filepath line_num st ls)).
      total_repetitions i + unique_actions i = total_actions i"
proof (induction ls arbitrary: line_num st)
  case Nil then show ?case by simp
next
  case (Cons l ls)
  show ?case using Cons.IH [OF ra_line_details [OF Cons.prems]] by simp
qed

lemma ra_files_details:
  "\<forall>i \<in> set (episode_details st). total_repetitions i + unique_actions i = total_actions i \<Longrightarrow>
   ra_files fs st filepaths = Inr st' \<Longrightarrow>
   \<forall>i \<in> set (episode_details st'). total_repetitions i + unique_actions i = total_actions i"
proof (induction filepaths arbitrary: st)
  case Nil then show ?case by simp
next
  case (Cons filepath rest)
  from Cons.prems(2) obtain f where f: "fs filepath = Some f"
    and r: "ra_files fs (ra_lines filepath 1 st (file_lines f)) rest = Inr st'"
    by (auto split: option.splits)
  show ?case using Cons.IH [OF ra_lines_details [OF Cons.prems(1)] r] .
qed

lemma summary_store_partition:
  "loss_partition thr st \<Longrightarrow> loss_partition thr (summary_store thr st d w)"
  by (simp add: loss_partition_def summary_store_def Let_def)

lemma summary_line_partition:
  assumes "loss_partition thr st"
  shows "loss_partition thr (summary_line thr filepath st l)"
proof (cases l)
  case Blank then show ?thesis using assms by (simp add: summary_line_def)
next
  case (Malformed e) then show ?thesis using assms by (simp add: summary_line_def loss_partition_def)
next
  case (Parsed episode)
  show ?thesis
  proof (cases "summary_episode episode")
    case (Inl e) then show ?thesis using assms Parsed by (simp add: summary_line_def loss_partition_def)
  next
    case (Inr r)
    show ?thesis
    proof (cases r)
      case None then show ?thesis using assms Parsed Inr by (simp add: summary_line_def)
    next
      case (Some dw)
      obtain d w where dw: "dw = (d, w)" by (cases dw)
      show ?thesis using assms Parsed Inr Some dw
        by (simp add: summary_line_def summary_store_partition)
    qed
  qed
qed

lemma summary_lines_partition:
  "loss_partition thr st \<Longrightarrow> loss_partition thr (summary_lines thr filepath st ls)"
  unfolding summary_lines_def
  by (induction ls arbitrary: st) (simp_all add: summary_line_partition)

lemma summary_files_partition:
  "loss_partition thr st \<Longrightarrow> summary_files fs thr st filepaths = Inr st' \<Longrightarrow> loss_partition thr st'"
proof (induction filepaths arbitrary: st)
  case Nil then show ?case by simp
next
  case (Cons filepath rest)
  from Cons.prems(2) obtain f where f: "fs filepath = Some f"
    and r: "summary_files fs thr (summary_lines thr filepath st (file_lines f)) rest = Inr st'"
    by (auto split: option.splits)
  show ?case using Cons.IH [OF summary_lines_partition [OF Cons.prems(1)] r] .
qed

text \<open>
  C10. Every episode that the repeated-actions analysis records satisfies
  \<open>total_repetitions = total_actions - unique_actions\<close>; and in the summary analysis the
  step-limit losses are exactly the losses with at least the threshold number of actions,
  the invalid-action losses are exactly the other losses, and the \<^verbatim>\<open>loss_type\<close> of each
  loss names its class: the two lists partition the losses.
\<close>

theorem recorded_invariants:
  "(analyze_repeated_actions fs filepaths = Inr rst \<longrightarrow>
      (\<forall>info \<in> set (episode_details rst).
         unique_actions info \<le> total_actions info \<and>
         total_repetitions info = total_actions info - unique_actions info)) \<and>
   (analyze_episodes fs filepaths thr = Inr sst \<longrightarrow>
      loss_step_limit sst = filter (\<lambda>d. thr \<le> int (num_actions d)) (loss_episodes sst) \<and>
      loss_invalid_actions sst = filter (\<lambda>d. \<not> thr \<le> int (num_actions d)) (loss_episodes sst) \<and>
      (\<forall>d \<in> set (loss_episodes sst).
         loss_type d = Some (if thr \<le> int (num_actions d) then ''step_limit'' else ''invalid_actions'')))"
proof (intro conjI impI)
  assume a: "analyze_repeated_actions fs filepaths = Inr rst"
  have "\<forall>i \<in> set (episode_details ra_init). total_repetitions i + unique_actions i = total_actions i"
    by (simp add: ra_init_def)
  then have "\<forall>i \<in> set (episode_details rst). total_repetitions i + unique_actions i = total_actions i"
    using a ra_files_details unfolding analyze_repeated_actions_def by blast
  then show "\<forall>info \<in> set (episode_details rst).
         unique_actions info \<le> total_actions info \<and>
         total_repetitions info = total_actions info - unique_actions info"
    by (metis add_diff_cancel_right' le_add2)
next
  assume a: "analyze_episodes fs filepaths thr = Inr sst"
  have "loss_partition thr summary_init" by (simp add: loss_partition_def summary_init_def)
  then have p: "loss_partition thr sst"
    using a summary_files_partition unfolding analyze_episodes_def by blast
  show "loss_step_limit sst = filter (\<lambda>d. thr \<le> int (num_actions d)) (loss_episodes sst)"
    using p by (simp add: loss_partition_def)
  show "loss_invalid_actions sst = filter (\<lambda>d. \<not> thr \<le> int (num_actions d)) (loss_episodes sst)"
    using p by (simp add: loss_partition_def)
  show "\<forall>d \<in> set (loss_episodes sst).
         loss_type d = Some (if thr \<le> int (num_actions d) then ''step_limit'' else ''invalid_actions'')"
    using p by (simp add: loss_partition_def)
qed


theorem recorded_invariants_witness:
  "\<exists>rst sst. analyze_repeated_actions sample_fs [''run.jsonl''] = Inr rst \<and>
      analyze_episodes sample_fs [''run.jsonl''] 100 = Inr sst \<and>
      length (episode_details rst) = 2 \<and> length (loss_episodes sst) = 1 \<and>
      total_repetitions (hd (episode_details rst)) =
        total_actions (hd (episode_details rst)) - unique_actions (hd (episode_details rst)) \<and>
      loss_invalid_actions sst =
        filter (\<lambda>d. \<not> 100 \<le> int (num_actions d)) (loss_episodes sst)"
proof -
  have "case analyze_repeated_actions sample_fs [''run.jsonl''] of
          Inl e \<Rightarrow> False | Inr rst \<Rightarrow> length (episode_details rst) = 2"
    by code_simp
  then obtain rst where r: "analyze_repeated_actions sample_fs [''run.jsonl''] = Inr rst"
      "length (episode_details rst) = 2"
    by (auto split: sum.splits)
  have "case analyze_episodes sample_fs [''run.jsonl''] 100 of
          Inl e \<Rightarrow> False | Inr sst \<Rightarrow> length (loss_episodes sst) = 1"
    by code_simp
  then obtain sst where s: "analyze_episodes sample_fs [''run.jsonl''] 100 = Inr sst"
      "length (loss_episodes sst) = 1"
    by (auto split: sum.splits)
  note inv = recorded_invariants [of sample_fs "[''run.jsonl'']" rst 100 sst]
  have "hd (episode_details rst) \<in> set (episode_details rst)"
    using r(2) by (cases "episode_details rst") simp_all
  then have 1: "total_repetitions (hd (episode_details rst)) =
        total_actions (hd (episode_details rst)) - unique_actions (hd (episode_details rst))"
    using inv r(1) by blast
  have 2: "loss_invalid_actions sst =
        filter (\<lambda>d. \<not> 100 \<le> int (num_actions d)) (loss_episodes sst)"
    using inv s(1) by blast
  show ?thesis using r s 1 2 by blast
qed

section \<open>Error handling and classification of the line loops\<close>







text \<open>
  C8, as stated, fails: count\_episodes.py counts the episode before it analyses it. The
  line \<^verbatim>\<open>[]\<close> parses, its analysis raises \<^verbatim>\<open>AttributeError\<close>, the exception is logged, and
  the episode counts of the file and of the run have gone from 0 to 1.
\<close>

theorem failing_line_corrupts_counts:
  "ce_line sample_str ''run.jsonl'' 1
     (\<lparr> fs_episodes = 0, fs_total_actions = 0, fs_total_states = 0, fs_total_reward = 0,
         fs_size_bytes = 3 \<rparr>, ce_init) (Parsed (JList []))
   = (\<lparr> fs_episodes = 1, fs_total_actions = 0, fs_total_states = 0, fs_total_reward = 0,
         fs_size_bytes = 3 \<rparr>,
      ce_init \<lparr> total_episodes := 1,
                ce_output := [ErrorProcessing (Some 1) (Some ''run.jsonl'') AttributeError] \<rparr>)"
  by (simp add: ce_line_def ce_try_def analyze_episode_def bind_err_def ce_init_def)

text \<open>
  C8, amended. In repeated\_actions.py, summary.py and check\_all\_early\_terminations.py a
  line that the decoder rejects or whose processing raises leaves every aggregate as it
  was: the state changes by the logged message only, and the loop goes on. In
  count\_episodes.py this holds for a line that the decoder rejects; a line that parses is
  counted as an episode at once, so when its analysis raises, the two episode counts are
  incremented and nothing else changes but the log.
\<close>

theorem failing_line_aggregates:
  "ra_line fp n rst (Malformed e) =
     rst \<lparr> ra_output := ra_output rst @ [ErrorParsing (Some n) (Some fp) e] \<rparr> \<and>
   (ra_episode fp n ep = Inl err \<longrightarrow>
      ra_line fp n rst (Parsed ep) =
        rst \<lparr> ra_output := ra_output rst @ [ErrorProcessing (Some n) (Some fp) err] \<rparr>) \<and>
   summary_line thr fp sst (Malformed e) =
     sst \<lparr> sm_output := sm_output sst @ [ErrorParsing None (Some fp) e] \<rparr> \<and>
   (summary_episode ep = Inl err \<longrightarrow>
      summary_line thr fp sst (Parsed ep) =
        sst \<lparr> sm_output := sm_output sst @ [ErrorProcessing None (Some fp) err] \<rparr>) \<and>
   early_line thr fp n est (Malformed e) =
     est \<lparr> et_output := et_output est @ [ErrorParsing (Some n) None e] \<rparr> \<and>
   (early_episode thr fp n ep = Inl err \<longrightarrow>
      early_line thr fp n est (Parsed ep) =
        est \<lparr> et_output := et_output est @ [ErrorProcessing (Some n) None err] \<rparr>) \<and>
   ce_line py_str fp n (stats, results) (Malformed e) =
     (stats, results \<lparr> ce_output := ce_output results @ [ErrorParsing (Some n) (Some fp) e] \<rparr>) \<and>
   (analyze_episode py_str ep = Inl err \<longrightarrow>
      ce_line py_str fp n (stats, results) (Parsed ep) =
        (stats \<lparr> fs_episodes := fs_episodes stats + 1 \<rparr>,
         results \<lparr> total_episodes := total_episodes results + 1,
                   ce_output := ce_output results @ [ErrorProcessing (Some n) (Some fp) err] \<rparr>))"
  by (simp add: ra_line_def summary_line_def early_line_def ce_line_def ce_try_def)

theorem failing_line_aggregates_witness:
  "ra_episode ''run.jsonl'' 6 (JList []) = Inl AttributeError \<and>
   summary_episode (JList []) = Inl AttributeError \<and>
   early_episode 95 ''run.jsonl'' 6 (JList []) = Inl AttributeError \<and>
   analyze_episode sample_str (JList []) = Inl AttributeError \<and>
   ra_line ''run.jsonl'' 6 ra_init (Parsed (JList [])) =
     ra_init \<lparr> ra_output := ra_output ra_init @
                  [ErrorProcessing (Some 6) (Some ''run.jsonl'') AttributeError] \<rparr> \<and>
   summary_line 95 ''run.jsonl'' summary_init (Parsed (JList [])) =
     summary_init \<lparr> sm_output := sm_output summary_init @
                       [ErrorProcessing None (Some ''run.jsonl'') AttributeError] \<rparr> \<and>
   early_line 95 ''run.jsonl'' 6 early_init (Parsed (JList [])) =
     early_init \<lparr> et_output := et_output early_init @
                     [ErrorProcessing (Some 6) None AttributeError] \<rparr> \<and>
   total_episodes (snd (ce_line sample_str ''run.jsonl'' 6
      (\<lparr> fs_episodes = 3, fs_total_actions = 3, fs_total_states = 0, fs_total_reward = 0,
          fs_size_bytes = 512 \<rparr>, ce_init) (Parsed (JList [])))) = total_episodes ce_init + 1"
proof -
  have 1: "ra_episode ''run.jsonl'' 6 (JList []) = Inl AttributeError"
    by (simp add: ra_episode_def bind_err_def)
  have 2: "summary_episode (JList []) = Inl AttributeError"
    by (simp add: summary_episode_def bind_err_def)
  have 3: "early_episode 95 ''run.jsonl'' 6 (JList []) = Inl AttributeError"
    by (simp add: early_episode_def bind_err_def)
  have 4: "analyze_episode sample_str (JList []) = Inl AttributeError"
    by (simp add: analyze_episode_def bind_err_def)
  note t = failing_line_aggregates [where fp = "''run.jsonl''" and n = 6 and ep = "JList []"
        and err = AttributeError and rst = ra_init and sst = summary_init and est = early_init
        and thr = 95 and py_str = sample_str and results = ce_init
        and stats = "\<lparr> fs_episodes = 3, fs_total_actions = 3, fs_total_states = 0,
                       fs_total_reward = 0, fs_size_bytes = 512 \<rparr>"]
  have "ce_line sample_str ''run.jsonl'' 6
      (\<lparr> fs_episodes = 3, fs_total_actions = 3, fs_total_states = 0, fs_total_reward = 0,
          fs_size_bytes = 512 \<rparr>, ce_init) (Parsed (JList [])) =
        (\<lparr> fs_episodes = 3, fs_total_actions = 3, fs_total_states = 0, fs_total_reward = 0,
            fs_size_bytes = 512 \<rparr> \<lparr> fs_episodes := fs_episodes
              \<lparr> fs_episodes = 3, fs_total_actions = 3, fs_total_states = 0, fs_total_reward = 0,
                fs_size_bytes = 512 \<rparr> + 1 \<rparr>,
         ce_init \<lparr> total_episodes := total_episodes ce_init + 1,
                   ce_output := ce_output ce_init @
                     [ErrorProcessing (Some 6) (Some ''run.jsonl'') AttributeError] \<rparr>)"
    using t 4 by blast
  then have 5: "total_episodes (snd (ce_line sample_str ''run.jsonl'' 6
      (\<lparr> fs_episodes = 3, fs_total_actions = 3, fs_total_states = 0, fs_total_reward = 0,
          fs_size_bytes = 512 \<rparr>, ce_init) (Parsed (JList [])))) = total_episodes ce_init + 1"
    by simp
  show ?thesis using 1 2 3 4 5 t by blast
qed



























section \<open>Canonical keys and structural equality\<close>





















end
